theory Spec2Isabelle
  imports Complex_Main
begin

section \<open>The directory tree as the script observes it\<close>

text \<open>
  \<^verbatim>\<open>find_oldest_sstable.py\<close> reads the file system through five calls only:
  \<^verbatim>\<open>os.path.isdir\<close>, \<^verbatim>\<open>os.listdir\<close>, \<^verbatim>\<open>os.walk\<close>, \<^verbatim>\<open>os.path.join\<close> and
  \<^verbatim>\<open>os.path.getmtime\<close>.  A static tree is a value of type \<open>node\<close>; every operating
  system fault the calls can raise is written into the tree as the exception it raises.
  The string carried by an exception is its \<^verbatim>\<open>str(e)\<close>.
\<close>

datatype oserror =
    FileNotFoundError string
  | PermissionError string
  | OtherOSError string

text \<open>
  \<^item> \<open>File r\<close>: an entry that is not a directory; \<open>r\<close> is what \<^verbatim>\<open>os.stat\<close> on it gives, the
    modification time \<^verbatim>\<open>st_mtime\<close> (a finite float, read here as the real number it denotes;
    the script only compares these values) or the exception raised.  A file removed between
    the listing and the stat is \<open>File (Inl (FileNotFoundError m))\<close>.
  \<^item> \<open>Dir es\<close>: a directory that can be listed; \<open>es\<close> are its entries in directory order.
  \<^item> \<open>NoListDir e\<close>: a directory whose listing raises \<open>e\<close>.
  \<^item> \<open>Link n\<close>: a symbolic link that resolves to \<open>n\<close>; \<open>Dangling\<close>: one that resolves to nothing.
\<close>

datatype node =
    File "oserror + real"
  | Dir "(string \<times> node) list"
  | NoListDir oserror
  | Link node
  | Dangling

fun resolve :: "node \<Rightarrow> node option" where
  "resolve (Link n) = resolve n"
| "resolve Dangling = None"
| "resolve (File r) = Some (File r)"
| "resolve (Dir es) = Some (Dir es)"
| "resolve (NoListDir e) = Some (NoListDir e)"

text \<open>\<^verbatim>\<open>os.path.islink\<close>: the entry itself is a symbolic link.\<close>

fun islink :: "node \<Rightarrow> bool" where
  "islink (Link n) = True"
| "islink Dangling = True"
| "islink (File r) = False"
| "islink (Dir es) = False"
| "islink (NoListDir e) = False"

text \<open>\<^verbatim>\<open>os.path.isdir\<close> and \<^verbatim>\<open>DirEntry.is_dir()\<close>: both follow symbolic links, neither raises.\<close>

definition isdir :: "node \<Rightarrow> bool" where
  "isdir n = (case resolve n of
                Some (Dir es) \<Rightarrow> True
              | Some (NoListDir e) \<Rightarrow> True
              | _ \<Rightarrow> False)"

text \<open>\<^verbatim>\<open>os.listdir\<close>: the entries, or the exception.  It follows symbolic links.\<close>

definition listdir :: "node \<Rightarrow> oserror + (string \<times> node) list" where
  "listdir n = (case resolve n of
                  Some (Dir es) \<Rightarrow> Inr es
                | Some (NoListDir e) \<Rightarrow> Inl e
                | Some (File r) \<Rightarrow> Inl (OtherOSError ''Not a directory'')
                | _ \<Rightarrow> Inl (FileNotFoundError ''No such file or directory''))"

text \<open>
  \<^verbatim>\<open>os.path.getmtime\<close>: \<^verbatim>\<open>os.stat(path).st_mtime\<close>, following symbolic links.  The script
  calls it only on a name that \<^verbatim>\<open>os.walk\<close> listed among the non-directories (lemma
  \<open>nondirs_not_isdir\<close> below), so the tree records no modification time for
  directories and the last case is never reached by the scan.
\<close>

definition getmtime :: "node \<Rightarrow> oserror + real" where
  "getmtime n = (case resolve n of
                   Some (File r) \<Rightarrow> r
                 | None \<Rightarrow> Inl (FileNotFoundError ''No such file or directory'')
                 | _ \<Rightarrow> Inl (OtherOSError ''Is a directory''))"

text \<open>\<^verbatim>\<open>posixpath.join\<close> with two arguments.\<close>

definition join :: "string \<Rightarrow> string \<Rightarrow> string" where
  "join a b = (if b \<noteq> [] \<and> hd b = CHR ''/'' then b
               else if a = [] \<or> last a = CHR ''/'' then a @ b
               else a @ ''/'' @ b)"

text \<open>\<^verbatim>\<open>posixpath.basename\<close>: what follows the last slash.\<close>

definition basename :: "string \<Rightarrow> string" where
  "basename p = rev (takeWhile (\<lambda>c. c \<noteq> CHR ''/'') (rev p))"

subsection \<open>\<^verbatim>\<open>os.walk(top)\<close> with its defaults\<close>

text \<open>
  Top-down, \<^verbatim>\<open>followlinks=False\<close>, \<^verbatim>\<open>onerror=None\<close>.  The generator yields one triple
  \<^verbatim>\<open>(root, dirs, files)\<close> per directory it can list; an \<^verbatim>\<open>OSError\<close> from \<^verbatim>\<open>scandir\<close> is
  ignored and that directory yields nothing.  An entry goes to \<^verbatim>\<open>dirs\<close> when \<^verbatim>\<open>is_dir()\<close>
  holds (links followed) and to \<^verbatim>\<open>files\<close> otherwise; a directory of \<^verbatim>\<open>dirs\<close> is walked
  unless it is a symbolic link.  The \<^verbatim>\<open>top\<close> argument itself is opened through links.
  The model keeps, beside each name of \<^verbatim>\<open>files\<close>, the entry the name stands for, which is
  what the path \<^verbatim>\<open>join(root, name)\<close> resolves to.
\<close>

type_synonym walk_item = "string \<times> string list \<times> (string \<times> node) list"

definition dirnames :: "(string \<times> node) list \<Rightarrow> string list" where
  "dirnames es = map fst (filter (\<lambda>e. isdir (snd e)) es)"

definition nondirs :: "(string \<times> node) list \<Rightarrow> (string \<times> node) list" where
  "nondirs es = filter (\<lambda>e. \<not> isdir (snd e)) es"

fun os_walk :: "string \<Rightarrow> node \<Rightarrow> walk_item list"
  and walk_dirs :: "string \<Rightarrow> (string \<times> node) list \<Rightarrow> walk_item list" where
  "os_walk dirpath (Dir es) = (dirpath, dirnames es, nondirs es) # walk_dirs dirpath es"
| "os_walk dirpath (Link n) = os_walk dirpath n"
| "os_walk dirpath (NoListDir e) = []"
| "os_walk dirpath (File r) = []"
| "os_walk dirpath Dangling = []"
| "walk_dirs dirpath [] = []"
| "walk_dirs dirpath (e # es) =
     (if isdir (snd e) \<and> \<not> islink (snd e) then os_walk (join dirpath (fst e)) (snd e) else [])
     @ walk_dirs dirpath es"

section \<open>The scan\<close>

definition base_cassandra_path :: string where
  "base_cassandra_path = ''/mnt/cassandra''"

definition system_keyspaces :: "string list" where
  "system_keyspaces = [''system'', ''system_schema'', ''system_auth'',
                       ''system_distributed'', ''system_traces'', ''system_views'']"

text \<open>
  The two local variables of the scan.  \<open>oldest_file_time = None\<close> is the initial
  \<^verbatim>\<open>float('inf')\<close>, which every modification time is below.
\<close>

record scan_state =
  oldest_file_path :: "string option"
  oldest_file_time :: "real option"

definition init_state :: scan_state where
  "init_state = \<lparr>oldest_file_path = None, oldest_file_time = None\<rparr>"

definition time_lt :: "real \<Rightarrow> real option \<Rightarrow> bool" where
  "time_lt mtime t = (case t of None \<Rightarrow> True | Some x \<Rightarrow> mtime < x)"

text \<open>The body of the loop over \<^verbatim>\<open>os.walk(table_path)\<close> (lines 48 to 62).\<close>

definition visit :: "walk_item \<Rightarrow> scan_state \<Rightarrow> oserror + scan_state" where
  "visit item st =
     (case item of (dirpath, dirs, files) \<Rightarrow>
        if ''Data.db'' \<in> set (map fst files) then
          (let full_path = join dirpath ''Data.db'' in
           case map_of files ''Data.db'' of
             None \<Rightarrow> Inr st
           | Some n \<Rightarrow>
               (case getmtime n of
                  Inr mtime \<Rightarrow>
                    if time_lt mtime (oldest_file_time st)
                    then Inr (st\<lparr>oldest_file_time := Some mtime,
                                 oldest_file_path := Some full_path\<rparr>)
                    else Inr st
                | Inl (FileNotFoundError m) \<Rightarrow> Inr st
                | Inl e \<Rightarrow> Inl e))
        else Inr st)"

fun walk_loop :: "walk_item list \<Rightarrow> scan_state \<Rightarrow> oserror + scan_state" where
  "walk_loop [] st = Inr st"
| "walk_loop (item # items) st =
     (case visit item st of
        Inl e \<Rightarrow> Inl e
      | Inr st' \<Rightarrow> walk_loop items st')"

text \<open>The loop over the entries of a keyspace directory (lines 40 to 62).\<close>

fun scan_tables :: "string \<Rightarrow> (string \<times> node) list \<Rightarrow> scan_state \<Rightarrow> oserror + scan_state" where
  "scan_tables keyspace_path [] st = Inr st"
| "scan_tables keyspace_path (t # ts) st =
     (let table_path = join keyspace_path (fst t) in
      if \<not> isdir (snd t) then scan_tables keyspace_path ts st
      else case walk_loop (os_walk table_path (snd t)) st of
             Inl e \<Rightarrow> Inl e
           | Inr st' \<Rightarrow> scan_tables keyspace_path ts st')"

text \<open>The loop over the entries of the base directory (lines 32 to 62).\<close>

fun scan_keyspaces :: "(string \<times> node) list \<Rightarrow> scan_state \<Rightarrow> oserror + scan_state" where
  "scan_keyspaces [] st = Inr st"
| "scan_keyspaces (k # ks) st =
     (let keyspace_path = join base_cassandra_path (fst k) in
      if \<not> isdir (snd k) \<or> fst k \<in> set system_keyspaces then scan_keyspaces ks st
      else case listdir (snd k) of
             Inl e \<Rightarrow> Inl e
           | Inr ts \<Rightarrow>
               (case scan_tables keyspace_path ts st of
                  Inl e \<Rightarrow> Inl e
                | Inr st' \<Rightarrow> scan_keyspaces ks st'))"

text \<open>The \<^verbatim>\<open>try\<close> block (lines 30 to 62), run on the node at the base path.\<close>

definition scan :: "node \<Rightarrow> oserror + scan_state" where
  "scan base = (case listdir base of
                  Inl e \<Rightarrow> Inl e
                | Inr ks \<Rightarrow> scan_keyspaces ks init_state)"

subsection \<open>What the script prints\<close>

definition errstr :: "oserror \<Rightarrow> string" where
  "errstr e = (case e of FileNotFoundError m \<Rightarrow> m | PermissionError m \<Rightarrow> m | OtherOSError m \<Rightarrow> m)"

definition msg_not_found :: "string list" where
  "msg_not_found =
     [''Error: Cassandra data directory not found at '' @ [CHR 0x27] @ base_cassandra_path @ [CHR 0x27],
      ''Please ensure you are running this script on the correct server.'']"

definition msg_scanning :: string where
  "msg_scanning = ''Scanning for the oldest Data.db file under: '' @ base_cassandra_path @ [CHR 0x0A]"

definition msg_permission :: "string \<Rightarrow> string list" where
  "msg_permission m =
     [''Permission denied: Could not scan directory. Please run with appropriate permissions.'',
      ''Details: '' @ m]"

definition msg_unexpected :: "string \<Rightarrow> string list" where
  "msg_unexpected m = [''An unexpected error occurred: '' @ m]"

definition msg_none_found :: string where
  "msg_none_found = ''No '' @ [CHR 0x27] @ ''Data.db'' @ [CHR 0x27] @ '' files were found under ''
       @ [CHR 0x27] @ base_cassandra_path @ [CHR 0x27] @ '' (excluding system keyspaces).''"

text \<open>
  What a run of the function does: the strings printed, one per \<^verbatim>\<open>print\<close> call, and
  whether the function then returned or an exception escaped it.
\<close>

datatype run = Returns "string list" | Raises "string list"

fun printed :: "run \<Rightarrow> string list" where
  "printed (Returns ls) = ls"
| "printed (Raises ls) = ls"

fun after_print :: "string \<Rightarrow> run \<Rightarrow> run" where
  "after_print l (Returns ls) = Returns (l # ls)"
| "after_print l (Raises ls) = Raises (l # ls)"

text \<open>
  Lines 72 to 80.  They come after the \<^verbatim>\<open>try\<close> block, so nothing catches what they
  raise.  \<open>strftime t\<close> stands for
  \<^verbatim>\<open>datetime.fromtimestamp(t).strftime('%Y-%m-%d %H:%M:%S')\<close>: the rendering of the time
  stamp in local time, which depends on the time zone of the machine, or \<open>None\<close> when
  \<^verbatim>\<open>fromtimestamp\<close> raises because the time is out of the range it supports.  The time is
  rendered before the first of the three lines is printed.  \<^verbatim>\<open>fromtimestamp\<close> raises on
  infinity.  A string is true when it is not empty.
\<close>

definition report :: "(real \<Rightarrow> string option) \<Rightarrow> scan_state \<Rightarrow> run" where
  "report strftime st =
     (case oldest_file_path st of
        None \<Rightarrow> Returns [msg_none_found]
      | Some p \<Rightarrow>
          if p = [] then Returns [msg_none_found]
          else (case oldest_file_time st of
                  None \<Rightarrow> Raises []
                | Some t \<Rightarrow>
                    (case strftime t of
                       None \<Rightarrow> Raises []
                     | Some readable_time \<Rightarrow>
                         Returns [''--- Oldest SSTable Found Across All Keyspaces ---'',
                                  ''Path: '' @ p,
                                  ''Modification Time: '' @ readable_time])))"

text \<open>
  The whole function.  The argument is the node at \<^verbatim>\<open>/mnt/cassandra\<close>, \<open>None\<close> when
  nothing is there.
\<close>

definition find_oldest_sstable_globally :: "(real \<Rightarrow> string option) \<Rightarrow> node option \<Rightarrow> run" where
  "find_oldest_sstable_globally strftime fs =
     (case fs of
        None \<Rightarrow> Returns msg_not_found
      | Some base \<Rightarrow>
          if \<not> isdir base then Returns msg_not_found
          else after_print msg_scanning
            (case scan base of
               Inl (PermissionError m) \<Rightarrow> Returns (msg_permission m)
             | Inl e \<Rightarrow> Returns (msg_unexpected (errstr e))
             | Inr st \<Rightarrow> report strftime st))"

section \<open>The target files of the specification\<close>

text \<open>
  The specification speaks of the target files of a tree: the files named exactly
  \<^verbatim>\<open>Data.db\<close> at any depth inside a table directory of a namespace directory that is
  not excluded.  The definitions of this section follow those words, not the script.
  They list the target files in the order of a top-down walk (a directory's own file
  before its subdirectories, entries in directory order), each with its absolute path and
  with what reading its modification time gives.
\<close>

type_synonym candidate = "string \<times> (oserror + real)"

definition own_candidate :: "string \<Rightarrow> (string \<times> node) list \<Rightarrow> candidate list" where
  "own_candidate d es = (case map_of es ''Data.db'' of
                           Some (File r) \<Rightarrow> [(join d ''Data.db'', r)]
                         | _ \<Rightarrow> [])"

fun candidates_in :: "string \<Rightarrow> node \<Rightarrow> candidate list"
  and candidates_sub :: "string \<Rightarrow> (string \<times> node) list \<Rightarrow> candidate list" where
  "candidates_in d (Dir es) = own_candidate d es @ candidates_sub d es"
| "candidates_in d (File r) = []"
| "candidates_in d (NoListDir e) = []"
| "candidates_in d (Link n) = []"
| "candidates_in d Dangling = []"
| "candidates_sub d [] = []"
| "candidates_sub d (e # es) = candidates_in (join d (fst e)) (snd e) @ candidates_sub d es"

text \<open>The table directories of a namespace are its subdirectories, whatever their names.\<close>

definition keyspace_candidates :: "string \<Rightarrow> node \<Rightarrow> candidate list" where
  "keyspace_candidates kp n = (case n of Dir ts \<Rightarrow> candidates_sub kp ts | _ \<Rightarrow> [])"

fun base_candidates :: "(string \<times> node) list \<Rightarrow> candidate list" where
  "base_candidates [] = []"
| "base_candidates (k # ks) =
     (if fst k \<in> set system_keyspaces then []
      else keyspace_candidates (join base_cassandra_path (fst k)) (snd k))
     @ base_candidates ks"

definition candidates :: "node \<Rightarrow> candidate list" where
  "candidates base = (case base of Dir ks \<Rightarrow> base_candidates ks | _ \<Rightarrow> [])"

text \<open>The target files whose modification time can be read, with that time.\<close>

fun timed :: "candidate list \<Rightarrow> (string \<times> real) list" where
  "timed [] = []"
| "timed ((p, Inr t) # cs) = (p, t) # timed cs"
| "timed ((p, Inl e) # cs) = timed cs"

definition target_files :: "node \<Rightarrow> (string \<times> real) list" where
  "target_files base = timed (candidates base)"

definition is_file_not_found :: "oserror \<Rightarrow> bool" where
  "is_file_not_found e = (case e of FileNotFoundError m \<Rightarrow> True | _ \<Rightarrow> False)"

text \<open>
  A read of a modification time is readable when it gives a time, and tolerable when it
  gives a time or fails because the file is gone.
\<close>

definition readable :: "candidate \<Rightarrow> bool" where
  "readable c = (case snd c of Inr t \<Rightarrow> True | Inl e \<Rightarrow> False)"

definition tolerable :: "candidate \<Rightarrow> bool" where
  "tolerable c = (case snd c of Inr t \<Rightarrow> True | Inl e \<Rightarrow> is_file_not_found e)"

text \<open>
  The first failure, in traversal order, of a read of a modification time that is not a
  \<^verbatim>\<open>FileNotFoundError\<close>.
\<close>

fun first_fatal :: "candidate list \<Rightarrow> oserror option" where
  "first_fatal [] = None"
| "first_fatal ((p, Inr t) # cs) = first_fatal cs"
| "first_fatal ((p, Inl e) # cs) = (if is_file_not_found e then first_fatal cs else Some e)"

text \<open>
  The running minimum of the specification over the target files in traversal order:
  a time replaces the current one only when strictly below it; a failed read is skipped
  when the file is gone and ends the scan otherwise.
\<close>

fun consume :: "candidate list \<Rightarrow> scan_state \<Rightarrow> oserror + scan_state" where
  "consume [] st = Inr st"
| "consume ((p, Inr t) # cs) st =
     consume cs (if time_lt t (oldest_file_time st)
                 then st\<lparr>oldest_file_time := Some t, oldest_file_path := Some p\<rparr>
                 else st)"
| "consume ((p, Inl e) # cs) st = (if is_file_not_found e then consume cs st else Inl e)"

text \<open>The same running minimum over target files that all have a time.\<close>

fun keep_oldest :: "(string \<times> real) list \<Rightarrow> scan_state \<Rightarrow> scan_state" where
  "keep_oldest [] st = st"
| "keep_oldest (c # cs) st =
     keep_oldest cs (if time_lt (snd c) (oldest_file_time st)
                     then st\<lparr>oldest_file_time := Some (snd c), oldest_file_path := Some (fst c)\<rparr>
                     else st)"

subsection \<open>Plain trees\<close>

text \<open>
  A plain tree has listable directories and files only, and no name twice in a
  directory.  What reading a file's modification time gives is left open.  Below the base
  directory the excluded namespaces are left open too.
\<close>

fun plain :: "node \<Rightarrow> bool"
  and plain_entries :: "(string \<times> node) list \<Rightarrow> bool" where
  "plain (Dir es) = (distinct (map fst es) \<and> plain_entries es)"
| "plain (File r) = True"
| "plain (NoListDir e) = False"
| "plain (Link n) = False"
| "plain Dangling = False"
| "plain_entries [] = True"
| "plain_entries (e # es) = (plain (snd e) \<and> plain_entries es)"

fun plain_keyspaces :: "(string \<times> node) list \<Rightarrow> bool" where
  "plain_keyspaces [] = True"
| "plain_keyspaces (k # ks) =
     ((fst k \<in> set system_keyspaces \<or> plain (snd k)) \<and> plain_keyspaces ks)"

definition plain_base :: "node \<Rightarrow> bool" where
  "plain_base base = (case base of Dir ks \<Rightarrow> plain_keyspaces ks | _ \<Rightarrow> False)"

subsection \<open>Emptying what is behind the directory links of a walked subtree\<close>

text \<open>
  \<open>cut_links n\<close> is the tree \<open>n\<close> in which every symbolic link to a directory met below
  the top of a walk points to an empty directory instead.  The top itself may be a link.
\<close>

fun cut_links :: "node \<Rightarrow> node"
  and cut_links_entries :: "(string \<times> node) list \<Rightarrow> (string \<times> node) list" where
  "cut_links (Dir es) = Dir (cut_links_entries es)"
| "cut_links (Link n) = Link (cut_links n)"
| "cut_links (File r) = File r"
| "cut_links (NoListDir e) = NoListDir e"
| "cut_links Dangling = Dangling"
| "cut_links_entries [] = []"
| "cut_links_entries (e # es) =
     (fst e, if islink (snd e) then (if isdir (snd e) then Link (Dir []) else snd e)
             else cut_links (snd e))
     # cut_links_entries es"

subsection \<open>The invariant of the reported path\<close>

definition named_target :: "scan_state \<Rightarrow> bool" where
  "named_target st = (case oldest_file_path st of
                        None \<Rightarrow> True
                      | Some p \<Rightarrow> basename p = ''Data.db'')"

section \<open>Example trees\<close>

text \<open>
  A stray file under the base directory, an excluded namespace holding the oldest
  \<^verbatim>\<open>Data.db\<close> of all, and one namespace with two tables.  The file \<^verbatim>\<open>Index.db\<close> is older
  than every target file of the namespace \<^verbatim>\<open>ks1\<close>.
\<close>

definition ex_tree :: node where
  "ex_tree = Dir
     [(''notes.txt'', File (Inr 2)),
      (''system'', Dir [(''local-7ad5'', Dir [(''Data.db'', File (Inr 1))])]),
      (''ks1'', Dir
         [(''users-1a2b'', Dir
             [(''Data.db'', File (Inr 50)),
              (''Index.db'', File (Inr 3)),
              (''snapshots'', Dir [(''Data.db'', File (Inr 20))])]),
          (''events-3c4d'', Dir [(''Data.db'', File (Inr 30))])])]"

definition ex_path :: string where
  "ex_path = ''/mnt/cassandra/ks1/users-1a2b/snapshots/Data.db''"

text \<open>Nothing but a stray file and an excluded namespace.\<close>

definition ex_excluded_only :: node where
  "ex_excluded_only = Dir
     [(''notes.txt'', File (Inr 2)),
      (''system_auth'', Dir [(''roles-5bc5'', Dir [(''Data.db'', File (Inr 1))])])]"

text \<open>A table whose subdirectory cannot be listed, beside a readable target file.\<close>

definition ex_unlistable_subdir :: node where
  "ex_unlistable_subdir = Dir
     [(''ks1'', Dir
         [(''users-1a2b'', Dir
             [(''Data.db'', File (Inr 50)),
              (''snapshots'', NoListDir (PermissionError ''[Errno 13] Permission denied''))])])]"

text \<open>A target file whose modification time cannot be read for lack of permission.\<close>

definition ex_unreadable_file :: node where
  "ex_unreadable_file = Dir
     [(''ks1'', Dir
         [(''users-1a2b'', Dir
             [(''Data.db'', File (Inl (PermissionError ''[Errno 13] Permission denied'')))]),
          (''events-3c4d'', Dir [(''Data.db'', File (Inr 30))])])]"

text \<open>The oldest target file of \<open>ex_tree\<close> is gone when its modification time is read.\<close>

definition ex_vanished :: node where
  "ex_vanished = Dir
     [(''ks1'', Dir
         [(''users-1a2b'', Dir
             [(''Data.db'', File (Inr 50)),
              (''snapshots'', Dir
                 [(''Data.db'', File (Inl (FileNotFoundError ''[Errno 2] No such file or directory'')))])]),
          (''events-3c4d'', Dir [(''Data.db'', File (Inr 30))])])]"

text \<open>Two target files with the same modification time.\<close>

definition ex_tie :: node where
  "ex_tie = Dir
     [(''ks1'', Dir
         [(''users-1a2b'', Dir [(''Data.db'', File (Inr 40))]),
          (''events-3c4d'', Dir [(''Data.db'', File (Inr 30))]),
          (''orders-5e6f'', Dir [(''Data.db'', File (Inr 30))])])]"

text \<open>
  A namespace and a table reached through symbolic links, and inside the table a link
  \<^verbatim>\<open>old\<close> to a directory that holds the oldest \<^verbatim>\<open>Data.db\<close> of all.
\<close>

definition ex_links :: node where
  "ex_links = Dir
     [(''ks1'', Link (Dir
         [(''users-1a2b'', Link (Dir
             [(''Data.db'', File (Inr 50)),
              (''old'', Link (Dir [(''Data.db'', File (Inr 1))]))]))]))]"

text \<open>
  A target file whose modification time cannot be read for an input/output error, in the
  first of two tables.
\<close>

definition ex_io_error :: node where
  "ex_io_error = Dir
     [(''ks1'', Dir
         [(''users-1a2b'', Dir
             [(''Data.db'', File (Inl (OtherOSError ''[Errno 5] Input/output error'')))]),
          (''events-3c4d'', Dir [(''Data.db'', File (Inr 30))])])]"

text \<open>A rendering of time stamps for the examples; the script's own depends on the time zone.\<close>

definition ex_strftime :: "real \<Rightarrow> string option" where
  "ex_strftime t = Some ''(local time)''"

lemmas eval_defs =
  scan_def listdir_def isdir_def system_keyspaces_def join_def base_cassandra_path_def
  visit_def dirnames_def nondirs_def getmtime_def time_lt_def init_state_def

section \<open>Basic facts\<close>

lemma isdir_Link [simp]: "isdir (Link n) = isdir n"
  by (simp add: isdir_def)

lemma listdir_Link [simp]: "listdir (Link n) = listdir n"
  by (simp add: listdir_def)

lemma getmtime_Link [simp]: "getmtime (Link n) = getmtime n"
  by (simp add: getmtime_def)

lemma walk_loop_append:
  "walk_loop (xs @ ys) st =
     (case walk_loop xs st of Inl e \<Rightarrow> Inl e | Inr st' \<Rightarrow> walk_loop ys st')"
  by (induction xs arbitrary: st) (auto split: sum.splits)

lemma nondirs_not_isdir: "map_of (nondirs es) name = Some n \<Longrightarrow> \<not> isdir n"
  by (auto simp: nondirs_def dest: map_of_SomeD)

section \<open>The reported path is a target file's\<close>

lemma basename_join_Data: "basename (join d ''Data.db'') = ''Data.db''"
proof -
  have a: "basename (d @ ''/'' @ ''Data.db'') = ''Data.db''"
    by (simp add: basename_def)
  have b: "basename (d @ ''Data.db'') = ''Data.db''" if "d = [] \<or> last d = CHR ''/''"
  proof (cases "d = []")
    case True
    then show ?thesis by (simp add: basename_def)
  next
    case False
    with that have "last d = CHR ''/''" by simp
    with False have "hd (rev d) = CHR ''/''" by (simp add: hd_rev)
    moreover from False have "rev d \<noteq> []" by simp
    ultimately obtain r where "rev d = CHR ''/'' # r" by (cases "rev d") auto
    then show ?thesis by (simp add: basename_def)
  qed
  show ?thesis using a b by (simp add: join_def)
qed

lemma visit_result:
  "visit item st = Inr st' \<Longrightarrow>
     st' = st \<or> (\<exists>t. st' = st\<lparr>oldest_file_time := Some t,
                                oldest_file_path := Some (join (fst item) ''Data.db'')\<rparr>)"
  by (cases item)
     (auto simp: visit_def Let_def split: if_splits option.splits sum.splits oserror.splits)

lemma visit_named:
  assumes "named_target st" and "visit item st = Inr st'"
  shows "named_target st'"
proof -
  from visit_result [OF assms(2)] show ?thesis
  proof
    assume "st' = st"
    with assms(1) show ?thesis by simp
  next
    assume "\<exists>t. st' = st\<lparr>oldest_file_time := Some t,
                oldest_file_path := Some (join (fst item) ''Data.db'')\<rparr>"
    then show ?thesis by (auto simp: named_target_def basename_join_Data)
  qed
qed

lemma walk_loop_named: "named_target st \<Longrightarrow> walk_loop items st = Inr st' \<Longrightarrow> named_target st'"
proof (induction items arbitrary: st)
  case Nil
  then show ?case by simp
next
  case (Cons item items)
  then show ?case by (auto split: sum.splits dest: visit_named)
qed

lemma scan_tables_named:
  "named_target st \<Longrightarrow> scan_tables kp ts st = Inr st' \<Longrightarrow> named_target st'"
proof (induction ts arbitrary: st)
  case Nil
  then show ?case by simp
next
  case (Cons t ts)
  then show ?case by (auto simp: Let_def split: sum.splits if_splits dest: walk_loop_named)
qed

lemma scan_keyspaces_named:
  "named_target st \<Longrightarrow> scan_keyspaces ks st = Inr st' \<Longrightarrow> named_target st'"
proof (induction ks arbitrary: st)
  case Nil
  then show ?case by simp
next
  case (Cons k ks)
  then show ?case by (auto simp: Let_def split: sum.splits if_splits dest: scan_tables_named)
qed

lemma scan_named: "scan base = Inr st \<Longrightarrow> named_target st"
  by (auto simp: scan_def split: sum.splits
           dest: scan_keyspaces_named [rotated] simp: named_target_def init_state_def)

lemma scan_ex_tree:
  "scan ex_tree = Inr \<lparr>oldest_file_path = Some ex_path, oldest_file_time = Some 20\<rparr>"
  by (simp add: ex_tree_def ex_path_def eval_defs)

text \<open>
  C8.  Whenever the scan ends with a path, the last component of that path is exactly
  \<^verbatim>\<open>Data.db\<close>: a file with any other name is never the result, whatever its place or age.
\<close>

theorem reported_file_is_named_Data_db:
  assumes "scan base = Inr st" and "oldest_file_path st = Some p"
  shows "basename p = ''Data.db''"
  using scan_named [OF assms(1)] assms(2) by (simp add: named_target_def)

theorem reported_file_is_named_Data_db_witness:
  "scan ex_tree = Inr \<lparr>oldest_file_path = Some ex_path, oldest_file_time = Some 20\<rparr>
   \<and> basename ex_path = ''Data.db''"
proof -
  have p: "oldest_file_path \<lparr>oldest_file_path = Some ex_path, oldest_file_time = Some 20\<rparr>
             = Some ex_path"
    by simp
  have "basename ex_path = ''Data.db''"
    by (rule reported_file_is_named_Data_db [OF scan_ex_tree p])
  with scan_ex_tree show ?thesis by (rule conjI)
qed

section \<open>Nothing found\<close>

lemma scan_ex_excluded_only: "scan ex_excluded_only = Inr init_state"
  by (simp add: ex_excluded_only_def eval_defs)

text \<open>
  C9.  When the base path is a directory, the scan ends without an error and no path
  was recorded, the script prints the line naming the scan root and then the line that no
  \<^verbatim>\<open>Data.db\<close> file was found under \<^verbatim>\<open>/mnt/cassandra\<close>, and nothing else: neither of the
  two error reports is printed.
\<close>

theorem none_found_is_reported:
  assumes "isdir base" and "scan base = Inr st" and "oldest_file_path st = None"
  shows "find_oldest_sstable_globally strftime (Some base)
           = Returns [msg_scanning, msg_none_found]
         \<and> msg_none_found =
             ''No 'Data.db' files were found under '/mnt/cassandra' (excluding system keyspaces).''"
  using assms
  by (simp add: find_oldest_sstable_globally_def report_def msg_none_found_def
                base_cassandra_path_def)

theorem none_found_is_reported_witness:
  "isdir ex_excluded_only \<and> scan ex_excluded_only = Inr init_state
   \<and> oldest_file_path init_state = None
   \<and> find_oldest_sstable_globally ex_strftime (Some ex_excluded_only)
       = Returns [msg_scanning, msg_none_found]"
proof -
  have d: "isdir ex_excluded_only" by (simp add: ex_excluded_only_def isdir_def)
  have n: "oldest_file_path init_state = None" by (simp add: init_state_def)
  from none_found_is_reported [OF d scan_ex_excluded_only n, of ex_strftime]
  have "find_oldest_sstable_globally ex_strftime (Some ex_excluded_only)
          = Returns [msg_scanning, msg_none_found]" by (rule conjunct1)
  with d scan_ex_excluded_only n show ?thesis by blast
qed

section \<open>A missing base directory\<close>

text \<open>
  C6.  When nothing is at the base path, or what is there is not a directory, the script
  prints the two lines of the configuration error, the first naming the path
  \<^verbatim>\<open>/mnt/cassandra\<close>, and returns: the line announcing the scan, which precedes the first
  listing, is not printed, and the output does not depend on the tree.
\<close>

theorem missing_base_is_configuration_error:
  assumes "case fs of None \<Rightarrow> True | Some base \<Rightarrow> \<not> isdir base"
  shows "find_oldest_sstable_globally strftime fs = Returns msg_not_found
         \<and> msg_scanning \<notin> set (printed (find_oldest_sstable_globally strftime fs))
         \<and> hd msg_not_found = ''Error: Cassandra data directory not found at '/mnt/cassandra'' @ [CHR 0x27]"
  using assms
  by (auto simp: find_oldest_sstable_globally_def msg_not_found_def msg_scanning_def
                 base_cassandra_path_def split: option.splits)

theorem missing_base_is_configuration_error_witness:
  "\<not> isdir (File (Inr 7))
   \<and> find_oldest_sstable_globally ex_strftime (Some (File (Inr 7))) = Returns msg_not_found
   \<and> find_oldest_sstable_globally ex_strftime None = Returns msg_not_found"
proof -
  have d: "\<not> isdir (File (Inr 7))" by (simp add: isdir_def)
  then have h: "case Some (File (Inr 7)) of None \<Rightarrow> True | Some base \<Rightarrow> \<not> isdir base"
    by simp
  have h': "case (None :: node option) of None \<Rightarrow> True | Some base \<Rightarrow> \<not> isdir base"
    by simp
  have a: "find_oldest_sstable_globally ex_strftime (Some (File (Inr 7))) = Returns msg_not_found"
    using missing_base_is_configuration_error [OF h, of ex_strftime] by (rule conjunct1)
  have b: "find_oldest_sstable_globally ex_strftime None = Returns msg_not_found"
    using missing_base_is_configuration_error [OF h', of ex_strftime] by (rule conjunct1)
  from d a b show ?thesis by blast
qed

section \<open>Excluded namespaces\<close>

lemma scan_keyspaces_excluded:
  "k \<in> set system_keyspaces \<Longrightarrow>
     scan_keyspaces (pre @ (k, n) # post) st = scan_keyspaces (pre @ post) st"
proof (induction pre arbitrary: st)
  case Nil
  then show ?case by simp
next
  case (Cons a pre)
  then show ?case by (simp add: Let_def split: sum.splits)
qed

text \<open>
  C4.  An entry of the base directory whose name is one of the six excluded names has no
  effect on the scan, whatever lies beneath it: the scan and the printed output are those
  of the tree without that entry.
\<close>

theorem excluded_namespace_is_never_entered:
  assumes "k \<in> set system_keyspaces"
  shows "scan (Dir (pre @ (k, n) # post)) = scan (Dir (pre @ post))
         \<and> find_oldest_sstable_globally strftime (Some (Dir (pre @ (k, n) # post)))
             = find_oldest_sstable_globally strftime (Some (Dir (pre @ post)))"
proof -
  have s: "scan (Dir (pre @ (k, n) # post)) = scan (Dir (pre @ post))"
    using scan_keyspaces_excluded [OF assms] by (simp add: scan_def listdir_def)
  have d: "isdir (Dir (pre @ (k, n) # post)) = isdir (Dir (pre @ post))"
    by (simp add: isdir_def)
  show ?thesis using s d by (simp add: find_oldest_sstable_globally_def)
qed

theorem excluded_namespace_is_never_entered_witness:
  "''system'' \<in> set system_keyspaces
   \<and> scan (Dir ([(''ks1'', Dir [(''t'', Dir [(''Data.db'', File (Inr 9))])])]
                @ (''system'', Dir [(''local'', Dir [(''Data.db'', File (Inr 1))])]) # []))
     = Inr \<lparr>oldest_file_path = Some ''/mnt/cassandra/ks1/t/Data.db'', oldest_file_time = Some 9\<rparr>"
proof -
  have k: "''system'' \<in> set system_keyspaces" by (simp add: system_keyspaces_def)
  have r: "scan (Dir ([(''ks1'', Dir [(''t'', Dir [(''Data.db'', File (Inr 9))])])] @ []))
     = Inr \<lparr>oldest_file_path = Some ''/mnt/cassandra/ks1/t/Data.db'', oldest_file_time = Some 9\<rparr>"
    by (simp add: eval_defs)
  from excluded_namespace_is_never_entered [OF k, of
      "[(''ks1'', Dir [(''t'', Dir [(''Data.db'', File (Inr 9))])])]"
      "Dir [(''local'', Dir [(''Data.db'', File (Inr 1))])]" "[]" ex_strftime]
  have "scan (Dir ([(''ks1'', Dir [(''t'', Dir [(''Data.db'', File (Inr 9))])])]
                @ (''system'', Dir [(''local'', Dir [(''Data.db'', File (Inr 1))])]) # []))
        = scan (Dir ([(''ks1'', Dir [(''t'', Dir [(''Data.db'', File (Inr 9))])])] @ []))"
    by (rule conjunct1)
  with r k show ?thesis by simp
qed

section \<open>A directory that cannot be listed\<close>

text \<open>
  C2.  A listing by \<^verbatim>\<open>os.listdir\<close> that fails, of the base directory or of a namespace
  that is not excluded, ends the scan with the error raised.  Inside a table the claim
  fails: \<^verbatim>\<open>os.walk\<close> is called without \<^verbatim>\<open>onerror\<close> and ignores the error of a listing,
  so a table directory that cannot be listed is passed over like an empty one, and on
  \<open>ex_unlistable_subdir\<close>, where the subdirectory \<^verbatim>\<open>snapshots\<close> of a table raises
  \<^verbatim>\<open>PermissionError\<close>, the scan ends normally and the script reports the one file it
  could see (or raises when that file's time cannot be rendered).
\<close>

theorem unlistable_table_subdirectory_is_passed_over:
  "scan (NoListDir e) = Inl e
   \<and> scan_keyspaces ((k, NoListDir e) # ks) st
       = (if k \<in> set system_keyspaces then scan_keyspaces ks st else Inl e)
   \<and> scan_tables kp ((t, NoListDir e) # ts) st = scan_tables kp ts st
   \<and> scan ex_unlistable_subdir
       = Inr \<lparr>oldest_file_path = Some ''/mnt/cassandra/ks1/users-1a2b/Data.db'',
              oldest_file_time = Some 50\<rparr>
   \<and> find_oldest_sstable_globally strftime (Some ex_unlistable_subdir)
       = (case strftime 50 of
            None \<Rightarrow> Raises [msg_scanning]
          | Some readable_time \<Rightarrow>
              Returns [msg_scanning, ''--- Oldest SSTable Found Across All Keyspaces ---'',
                       ''Path: /mnt/cassandra/ks1/users-1a2b/Data.db'',
                       ''Modification Time: '' @ readable_time])"
proof -
  have r: "scan (NoListDir e) = Inl e"
    by (simp add: scan_def listdir_def)
  have k: "scan_keyspaces ((k, NoListDir e) # ks) st
       = (if k \<in> set system_keyspaces then scan_keyspaces ks st else Inl e)"
    by (simp add: isdir_def listdir_def)
  have a: "scan_tables kp ((t, NoListDir e) # ts) st = scan_tables kp ts st"
    by (simp add: isdir_def)
  have b: "scan ex_unlistable_subdir
       = Inr \<lparr>oldest_file_path = Some ''/mnt/cassandra/ks1/users-1a2b/Data.db'',
              oldest_file_time = Some 50\<rparr>"
    by (simp add: ex_unlistable_subdir_def eval_defs)
  have d: "isdir ex_unlistable_subdir" by (simp add: ex_unlistable_subdir_def isdir_def)
  have c: "find_oldest_sstable_globally strftime (Some ex_unlistable_subdir)
       = (case strftime 50 of
            None \<Rightarrow> Raises [msg_scanning]
          | Some readable_time \<Rightarrow>
              Returns [msg_scanning, ''--- Oldest SSTable Found Across All Keyspaces ---'',
                       ''Path: /mnt/cassandra/ks1/users-1a2b/Data.db'',
                       ''Modification Time: '' @ readable_time])"
    by (simp add: find_oldest_sstable_globally_def d b report_def split: option.splits)
  from r k a b c show ?thesis by (intro conjI)
qed

section \<open>The scan of a plain tree is the running minimum over its target files\<close>

lemma consume_append:
  "consume (xs @ ys) st =
     (case consume xs st of Inl e \<Rightarrow> Inl e | Inr st' \<Rightarrow> consume ys st')"
  by (induction xs st rule: consume.induct) auto

lemma plain_cases: "plain n \<Longrightarrow> (\<exists>es. n = Dir es) \<or> (\<exists>r. n = File r)"
  by (cases n) auto

lemma map_of_nondirs_absent:
  "name \<notin> fst ` set es \<Longrightarrow> map_of (nondirs es) name = None"
  by (auto simp: map_of_eq_None_iff nondirs_def)

lemma map_of_nondirs:
  "distinct (map fst es) \<Longrightarrow> plain_entries es \<Longrightarrow>
     map_of (nondirs es) name =
       (case map_of es name of Some (File r) \<Rightarrow> Some (File r) | _ \<Rightarrow> None)"
proof (induction es)
  case Nil
  then show ?case by (simp add: nondirs_def)
next
  case (Cons e es)
  obtain k n where e: "e = (k, n)" by (cases e)
  from Cons.prems have pn: "plain n" and d: "k \<notin> fst ` set es"
    and rest: "distinct (map fst es)" "plain_entries es"
    by (auto simp: e)
  have ih: "map_of (nondirs es) name =
       (case map_of es name of Some (File r) \<Rightarrow> Some (File r) | _ \<Rightarrow> None)"
    by (rule Cons.IH [OF rest])
  have nd: "nondirs ((k, n) # es) = (if isdir n then nondirs es else (k, n) # nondirs es)"
    by (simp add: nondirs_def)
  from plain_cases [OF pn] show ?case
  proof
    assume "\<exists>fs. n = Dir fs"
    then obtain fs where n: "n = Dir fs" ..
    then have "isdir n" by (simp add: isdir_def)
    with nd have nd': "nondirs ((k, Dir fs) # es) = nondirs es" by (simp add: n)
    show ?thesis
    proof (cases "name = k")
      case True
      with d have "map_of (nondirs es) name = None" by (simp add: map_of_nondirs_absent)
      with True show ?thesis by (simp add: nd' e n)
    next
      case False
      then show ?thesis by (simp add: nd' e n ih)
    qed
  next
    assume "\<exists>r. n = File r"
    then obtain r where n: "n = File r" ..
    then have "\<not> isdir n" by (simp add: isdir_def)
    with nd have nd': "nondirs ((k, File r) # es) = (k, File r) # nondirs es" by (simp add: n)
    show ?thesis by (simp add: nd' e n ih)
  qed
qed

lemma visit_own:
  assumes "distinct (map fst es)" and "plain_entries es"
  shows "visit (d, dirnames es, nondirs es) st = consume (own_candidate d es) st"
proof -
  have m: "map_of (nondirs es) ''Data.db'' =
       (case map_of es ''Data.db'' of Some (File r) \<Rightarrow> Some (File r) | _ \<Rightarrow> None)"
    by (rule map_of_nondirs [OF assms])
  have mem: "(''Data.db'' \<in> set (map fst (nondirs es))) = (map_of (nondirs es) ''Data.db'' \<noteq> None)"
    by (simp add: map_of_eq_None_iff)
  show ?thesis
  proof (cases "map_of es ''Data.db''")
    case None
    with m mem show ?thesis by (simp add: visit_def own_candidate_def)
  next
    case (Some n)
    show ?thesis
    proof (cases n)
      case (File r)
      with Some m have mf: "map_of (nondirs es) ''Data.db'' = Some (File r)" by simp
      with mem have i: "''Data.db'' \<in> set (map fst (nondirs es))" by simp
      have o: "own_candidate d es = [(join d ''Data.db'', r)]"
        using Some File by (simp add: own_candidate_def)
      show ?thesis
      proof (cases r)
        case (Inl e)
        then show ?thesis using i mf o
          by (cases e) (simp_all add: visit_def getmtime_def is_file_not_found_def)
      next
        case (Inr t)
        then show ?thesis using i mf o
          by (simp add: visit_def getmtime_def)
      qed
    qed (use Some m mem in \<open>simp_all add: visit_def own_candidate_def\<close>)
  qed
qed

lemma walk_consume:
  "plain n \<Longrightarrow> walk_loop (os_walk d n) st = consume (candidates_in d n) st"
  "plain_entries es \<Longrightarrow> walk_loop (walk_dirs d es) st = consume (candidates_sub d es) st"
proof (induction d n and d es arbitrary: st and st rule: os_walk_walk_dirs.induct)
  case (1 dirpath es)
  from "1.prems" have dist: "distinct (map fst es)" and pe: "plain_entries es" by simp_all
  show ?case
    by (simp add: visit_own [OF dist pe] consume_append "1.IH" [OF pe] split: sum.splits)
next
  case (7 dirpath e es)
  from "7.prems" have pn: "plain (snd e)" and pe: "plain_entries es" by simp_all
  have rest: "\<And>st. walk_loop (walk_dirs dirpath es) st = consume (candidates_sub dirpath es) st"
    by (rule "7.IH"(2) [OF pe])
  from plain_cases [OF pn] show ?case
  proof
    assume "\<exists>fs. snd e = Dir fs"
    then obtain fs where n: "snd e = Dir fs" ..
    then have c: "isdir (snd e) \<and> \<not> islink (snd e)" by (simp add: isdir_def)
    have "\<And>st. walk_loop (os_walk (join dirpath (fst e)) (snd e)) st
            = consume (candidates_in (join dirpath (fst e)) (snd e)) st"
      by (rule "7.IH"(1) [OF c pn])
    with c rest show ?thesis by (simp add: walk_loop_append consume_append split: sum.splits)
  next
    assume "\<exists>r. snd e = File r"
    then obtain r where n: "snd e = File r" ..
    then have "\<not> isdir (snd e)" by (simp add: isdir_def)
    with n rest show ?thesis by simp
  qed
qed simp_all

lemma scan_tables_consume:
  "plain_entries ts \<Longrightarrow> scan_tables kp ts st = consume (candidates_sub kp ts) st"
proof (induction ts arbitrary: st)
  case Nil
  then show ?case by simp
next
  case (Cons t ts)
  then have pn: "plain (snd t)" and pe: "plain_entries ts" by simp_all
  note ih = Cons.IH [OF pe]
  from plain_cases [OF pn] show ?case
  proof
    assume "\<exists>fs. snd t = Dir fs"
    then obtain fs where n: "snd t = Dir fs" ..
    then have "isdir (snd t)" by (simp add: isdir_def)
    then show ?thesis
      by (simp add: Let_def walk_consume(1) [OF pn] consume_append ih split: sum.splits)
  next
    assume "\<exists>r. snd t = File r"
    then obtain r where n: "snd t = File r" ..
    then have "\<not> isdir (snd t)" by (simp add: isdir_def)
    with n show ?thesis by (simp add: ih)
  qed
qed

lemma scan_keyspaces_consume:
  "plain_keyspaces ks \<Longrightarrow> scan_keyspaces ks st = consume (base_candidates ks) st"
proof (induction ks arbitrary: st)
  case Nil
  then show ?case by simp
next
  case (Cons k ks)
  then have pk: "fst k \<in> set system_keyspaces \<or> plain (snd k)" and pe: "plain_keyspaces ks"
    by simp_all
  note ih = Cons.IH [OF pe]
  show ?case
  proof (cases "fst k \<in> set system_keyspaces")
    case True
    then show ?thesis by (simp add: ih)
  next
    case False
    with pk have pn: "plain (snd k)" by simp
    from plain_cases [OF pn] show ?thesis
    proof
      assume "\<exists>ts. snd k = Dir ts"
      then obtain ts where n: "snd k = Dir ts" ..
      then have d: "isdir (snd k)" and l: "listdir (snd k) = Inr ts"
        by (simp_all add: isdir_def listdir_def)
      from pn n have "plain_entries ts" by simp
      then have "\<And>st. scan_tables (join base_cassandra_path (fst k)) ts st
                  = consume (candidates_sub (join base_cassandra_path (fst k)) ts) st"
        by (rule scan_tables_consume)
      with False d l n show ?thesis
        by (simp add: Let_def keyspace_candidates_def consume_append ih split: sum.splits)
    next
      assume "\<exists>r. snd k = File r"
      then obtain r where n: "snd k = File r" ..
      then have "\<not> isdir (snd k)" by (simp add: isdir_def)
      with n False show ?thesis by (simp add: ih keyspace_candidates_def)
    qed
  qed
qed

lemma scan_consume:
  "plain_base base \<Longrightarrow> scan base = consume (candidates base) init_state"
  by (cases base)
     (simp_all add: plain_base_def scan_def listdir_def candidates_def scan_keyspaces_consume)

section \<open>Properties of the running minimum\<close>

lemma consume_first_fatal:
  "(case consume cs st of Inl e \<Rightarrow> Some e | Inr st' \<Rightarrow> None) = first_fatal cs"
  by (induction cs st rule: consume.induct) auto

lemma consume_tolerable:
  "list_all tolerable cs \<Longrightarrow> consume cs st = Inr (keep_oldest (timed cs) st)"
  by (induction cs st rule: consume.induct) (auto simp: tolerable_def)

lemma readable_tolerable: "list_all readable cs \<Longrightarrow> list_all tolerable cs"
  by (auto simp: list_all_iff readable_def tolerable_def split: sum.splits)

lemma keep_oldest_append:
  "keep_oldest (xs @ ys) st = keep_oldest ys (keep_oldest xs st)"
  by (induction xs arbitrary: st) auto

lemma keep_oldest_later:
  "\<forall>c\<in>set cs. t \<le> snd c \<Longrightarrow> oldest_file_time st = Some t \<Longrightarrow> keep_oldest cs st = st"
  by (induction cs) (auto simp: time_lt_def)

lemma keep_oldest_earlier:
  "\<forall>c\<in>set cs. t < snd c \<Longrightarrow> time_lt t (oldest_file_time st) \<Longrightarrow>
     time_lt t (oldest_file_time (keep_oldest cs st))"
  by (induction cs arbitrary: st) (auto simp: time_lt_def)

lemma keep_oldest_first_minimum:
  assumes "\<forall>c\<in>set pre. t < snd c" and "\<forall>c\<in>set post. t \<le> snd c"
  shows "keep_oldest (pre @ (p, t) # post) init_state
           = \<lparr>oldest_file_path = Some p, oldest_file_time = Some t\<rparr>"
proof -
  have "time_lt t (oldest_file_time init_state)" by (simp add: time_lt_def init_state_def)
  with assms(1) have "time_lt t (oldest_file_time (keep_oldest pre init_state))"
    by (rule keep_oldest_earlier)
  then have "keep_oldest [(p, t)] (keep_oldest pre init_state)
               = \<lparr>oldest_file_path = Some p, oldest_file_time = Some t\<rparr>"
    by simp
  moreover have "keep_oldest post \<lparr>oldest_file_path = Some p, oldest_file_time = Some t\<rparr>
               = \<lparr>oldest_file_path = Some p, oldest_file_time = Some t\<rparr>"
    using assms(2) by (rule keep_oldest_later) simp
  ultimately show ?thesis
    using keep_oldest_append [of pre "[(p, t)] @ post" init_state]
          keep_oldest_append [of "[(p, t)]" post "keep_oldest pre init_state"]
    by simp
qed

lemma first_minimum_exists:
  fixes cs :: "(string \<times> real) list"
  assumes "cs \<noteq> []"
  shows "\<exists>pre p t post. cs = pre @ (p, t) # post
           \<and> (\<forall>c\<in>set pre. t < snd c) \<and> (\<forall>c\<in>set post. t \<le> snd c)"
proof -
  define m where "m = Min (snd ` set cs)"
  have fin: "finite (snd ` set cs)" and ne: "snd ` set cs \<noteq> {}" using assms by simp_all
  have "m \<in> snd ` set cs" unfolding m_def by (rule Min_in [OF fin ne])
  then have "\<exists>c\<in>set cs. snd c = m" by auto
  from split_list_first_prop [OF this]
  obtain pre c post where s: "cs = pre @ c # post" and c: "snd c = m"
    and first: "\<forall>y\<in>set pre. snd y \<noteq> m"
    by blast
  have le: "\<And>y. y \<in> set cs \<Longrightarrow> m \<le> snd y"
    unfolding m_def using fin by (simp add: Min_le)
  have "\<forall>y\<in>set pre. m < snd y"
  proof
    fix y assume y: "y \<in> set pre"
    with s have "m \<le> snd y" by (simp add: le)
    moreover from first y have "snd y \<noteq> m" by simp
    ultimately show "m < snd y" by simp
  qed
  moreover have "\<forall>y\<in>set post. m \<le> snd y" using s by (simp add: le)
  moreover have "cs = pre @ (fst c, m) # post" using s c by (cases c) simp
  ultimately show ?thesis by blast
qed

lemma keep_oldest_minimum:
  assumes "cs \<noteq> []"
  shows "\<exists>p t. keep_oldest cs init_state = \<lparr>oldest_file_path = Some p, oldest_file_time = Some t\<rparr>
           \<and> (p, t) \<in> set cs \<and> (\<forall>c\<in>set cs. t \<le> snd c)"
proof -
  from first_minimum_exists [OF assms] obtain pre p t post
    where s: "cs = pre @ (p, t) # post"
      and a: "\<forall>c\<in>set pre. t < snd c" and b: "\<forall>c\<in>set post. t \<le> snd c"
    by blast
  have "keep_oldest cs init_state = \<lparr>oldest_file_path = Some p, oldest_file_time = Some t\<rparr>"
    unfolding s by (rule keep_oldest_first_minimum [OF a b])
  moreover have "(p, t) \<in> set cs" using s by simp
  moreover have "\<forall>c\<in>set cs. t \<le> snd c" using s a b by auto
  ultimately show ?thesis by blast
qed

lemma scan_tolerable:
  assumes "plain_base base" and "list_all tolerable (candidates base)"
  shows "scan base = Inr (keep_oldest (target_files base) init_state)"
  unfolding scan_consume [OF assms(1)] target_files_def
  by (rule consume_tolerable [OF assms(2)])

lemma plain_base_isdir: "plain_base base \<Longrightarrow> isdir base"
  by (cases base) (simp_all add: plain_base_def isdir_def)

lemma first_fatal_None: "first_fatal cs = None \<Longrightarrow> list_all tolerable cs"
  by (induction cs rule: first_fatal.induct) (auto simp: tolerable_def split: if_splits)

lemma report_found:
  assumes "isdir base"
    and "scan base = Inr \<lparr>oldest_file_path = Some p, oldest_file_time = Some t\<rparr>"
  shows "find_oldest_sstable_globally strftime (Some base)
           = (case strftime t of
                None \<Rightarrow> Raises [msg_scanning]
              | Some readable_time \<Rightarrow>
                  Returns [msg_scanning, ''--- Oldest SSTable Found Across All Keyspaces ---'',
                           ''Path: '' @ p, ''Modification Time: '' @ readable_time])"
proof -
  from scan_named [OF assms(2)] have "basename p = ''Data.db''"
    by (simp add: named_target_def)
  then have "p \<noteq> []" by (auto simp: basename_def)
  with assms show ?thesis
    by (simp add: find_oldest_sstable_globally_def report_def split: option.splits)
qed

section \<open>Failures of reading a modification time\<close>

lemma plain_base_ex_unreadable_file: "plain_base ex_unreadable_file"
  by (simp add: ex_unreadable_file_def plain_base_def system_keyspaces_def)

text \<open>
  C3, the claim as stated fails.  On \<open>ex_unreadable_file\<close> the read of the modification
  time of one target file raises \<^verbatim>\<open>PermissionError\<close>; the scan ends with that error and
  the script prints the permission report, although another table holds a readable target
  file.
\<close>

theorem unreadable_target_aborts_scan:
  "scan ex_unreadable_file = Inl (PermissionError ''[Errno 13] Permission denied'')
   \<and> find_oldest_sstable_globally ex_strftime (Some ex_unreadable_file)
       = Returns (msg_scanning # msg_permission ''[Errno 13] Permission denied'')"
proof -
  have a: "scan ex_unreadable_file = Inl (PermissionError ''[Errno 13] Permission denied'')"
    by (simp add: ex_unreadable_file_def eval_defs)
  have d: "isdir ex_unreadable_file" by (simp add: ex_unreadable_file_def isdir_def)
  show ?thesis using a d by (simp add: find_oldest_sstable_globally_def)
qed

lemma plain_base_ex_vanished: "plain_base ex_vanished"
  by (simp add: ex_vanished_def plain_base_def system_keyspaces_def)

lemma candidates_ex_vanished:
  "candidates ex_vanished =
     [(''/mnt/cassandra/ks1/users-1a2b/Data.db'', Inr 50),
      (''/mnt/cassandra/ks1/users-1a2b/snapshots/Data.db'',
         Inl (FileNotFoundError ''[Errno 2] No such file or directory'')),
      (''/mnt/cassandra/ks1/events-3c4d/Data.db'', Inr 30)]"
  by (simp add: ex_vanished_def candidates_def keyspace_candidates_def own_candidate_def
                system_keyspaces_def join_def base_cassandra_path_def)

lemma plain_base_ex_io_error: "plain_base ex_io_error"
  by (simp add: ex_io_error_def plain_base_def system_keyspaces_def)

lemma candidates_ex_unreadable_file:
  "candidates ex_unreadable_file =
     [(''/mnt/cassandra/ks1/users-1a2b/Data.db'',
         Inl (PermissionError ''[Errno 13] Permission denied'')),
      (''/mnt/cassandra/ks1/events-3c4d/Data.db'', Inr 30)]"
  by (simp add: ex_unreadable_file_def candidates_def keyspace_candidates_def own_candidate_def
                system_keyspaces_def join_def base_cassandra_path_def)

lemma candidates_ex_io_error:
  "candidates ex_io_error =
     [(''/mnt/cassandra/ks1/users-1a2b/Data.db'',
         Inl (OtherOSError ''[Errno 5] Input/output error'')),
      (''/mnt/cassandra/ks1/events-3c4d/Data.db'', Inr 30)]"
  by (simp add: ex_io_error_def candidates_def keyspace_candidates_def own_candidate_def
                system_keyspaces_def join_def base_cassandra_path_def)

text \<open>
  C3, amended.  On a plain tree the scan fails exactly when the read of some target file's
  modification time fails with an error other than \<^verbatim>\<open>FileNotFoundError\<close>, and then with
  the first such error in traversal order: a target file that is gone is skipped, any other
  failed read ends the scan.  When no read fails in that way the script goes on to report
  the running minimum over the target files that are left.  When one does, the script
  prints, after the scan line, the two lines of the permission report with the text of the
  error if it is a \<^verbatim>\<open>PermissionError\<close>, and the line of the unexpected error with the
  text of the error otherwise, and returns.
\<close>

theorem only_file_not_found_is_skipped:
  assumes "plain_base base"
  shows "(case scan base of Inl e \<Rightarrow> Some e | Inr st \<Rightarrow> None) = first_fatal (candidates base)
         \<and> find_oldest_sstable_globally strftime (Some base) =
             (case first_fatal (candidates base) of
                None \<Rightarrow>
                  after_print msg_scanning
                    (report strftime (keep_oldest (target_files base) init_state))
              | Some (PermissionError m) \<Rightarrow>
                  Returns [msg_scanning,
                    ''Permission denied: Could not scan directory. Please run with appropriate permissions.'',
                    ''Details: '' @ m]
              | Some (OtherOSError m) \<Rightarrow>
                  Returns [msg_scanning, ''An unexpected error occurred: '' @ m]
              | Some (FileNotFoundError m) \<Rightarrow>
                  Returns [msg_scanning, ''An unexpected error occurred: '' @ m])"
proof -
  have e: "(case scan base of Inl e \<Rightarrow> Some e | Inr st \<Rightarrow> None) = first_fatal (candidates base)"
    unfolding scan_consume [OF assms] by (rule consume_first_fatal)
  have d: "isdir base" by (rule plain_base_isdir [OF assms])
  have o: "find_oldest_sstable_globally strftime (Some base) =
             (case first_fatal (candidates base) of
                None \<Rightarrow>
                  after_print msg_scanning
                    (report strftime (keep_oldest (target_files base) init_state))
              | Some (PermissionError m) \<Rightarrow>
                  Returns [msg_scanning,
                    ''Permission denied: Could not scan directory. Please run with appropriate permissions.'',
                    ''Details: '' @ m]
              | Some (OtherOSError m) \<Rightarrow>
                  Returns [msg_scanning, ''An unexpected error occurred: '' @ m]
              | Some (FileNotFoundError m) \<Rightarrow>
                  Returns [msg_scanning, ''An unexpected error occurred: '' @ m])"
  proof (cases "first_fatal (candidates base)")
    case None
    then have "list_all tolerable (candidates base)" by (rule first_fatal_None)
    then have "scan base = Inr (keep_oldest (target_files base) init_state)"
      by (rule scan_tolerable [OF assms])
    with None d show ?thesis by (simp add: find_oldest_sstable_globally_def)
  next
    case (Some err)
    with e have "scan base = Inl err" by (simp split: sum.splits)
    with Some d show ?thesis
      by (cases err)
         (simp_all add: find_oldest_sstable_globally_def msg_permission_def msg_unexpected_def
                        errstr_def)
  qed
  from e o show ?thesis by (rule conjI)
qed

theorem only_file_not_found_is_skipped_witness:
  "plain_base ex_unreadable_file \<and> plain_base ex_io_error \<and> plain_base ex_vanished
   \<and> find_oldest_sstable_globally ex_strftime (Some ex_unreadable_file)
       = Returns [msg_scanning,
           ''Permission denied: Could not scan directory. Please run with appropriate permissions.'',
           ''Details: [Errno 13] Permission denied'']
   \<and> find_oldest_sstable_globally ex_strftime (Some ex_io_error)
       = Returns [msg_scanning, ''An unexpected error occurred: [Errno 5] Input/output error'']
   \<and> find_oldest_sstable_globally ex_strftime (Some ex_vanished)
       = Returns [msg_scanning, ''--- Oldest SSTable Found Across All Keyspaces ---'',
                  ''Path: /mnt/cassandra/ks1/events-3c4d/Data.db'',
                  ''Modification Time: (local time)'']"
proof -
  have fp: "first_fatal (candidates ex_unreadable_file)
              = Some (PermissionError ''[Errno 13] Permission denied'')"
    by (simp add: candidates_ex_unreadable_file is_file_not_found_def)
  have fo: "first_fatal (candidates ex_io_error)
              = Some (OtherOSError ''[Errno 5] Input/output error'')"
    by (simp add: candidates_ex_io_error is_file_not_found_def)
  have fv: "first_fatal (candidates ex_vanished) = None"
    by (simp add: candidates_ex_vanished is_file_not_found_def)
  have kv: "keep_oldest (target_files ex_vanished) init_state
              = \<lparr>oldest_file_path = Some ''/mnt/cassandra/ks1/events-3c4d/Data.db'',
                 oldest_file_time = Some 30\<rparr>"
    by (simp add: target_files_def candidates_ex_vanished time_lt_def init_state_def)
  have a: "find_oldest_sstable_globally ex_strftime (Some ex_unreadable_file)
       = Returns [msg_scanning,
           ''Permission denied: Could not scan directory. Please run with appropriate permissions.'',
           ''Details: [Errno 13] Permission denied'']"
    using only_file_not_found_is_skipped
            [OF plain_base_ex_unreadable_file, THEN conjunct2, of ex_strftime]
    by (simp add: fp)
  have b: "find_oldest_sstable_globally ex_strftime (Some ex_io_error)
       = Returns [msg_scanning, ''An unexpected error occurred: [Errno 5] Input/output error'']"
    using only_file_not_found_is_skipped
            [OF plain_base_ex_io_error, THEN conjunct2, of ex_strftime]
    by (simp add: fo)
  have c: "find_oldest_sstable_globally ex_strftime (Some ex_vanished)
       = Returns [msg_scanning, ''--- Oldest SSTable Found Across All Keyspaces ---'',
                  ''Path: /mnt/cassandra/ks1/events-3c4d/Data.db'',
                  ''Modification Time: (local time)'']"
    using only_file_not_found_is_skipped
            [OF plain_base_ex_vanished, THEN conjunct2, of ex_strftime]
    by (simp add: fv kv report_def ex_strftime_def)
  from plain_base_ex_unreadable_file plain_base_ex_io_error plain_base_ex_vanished a b c
  show ?thesis by (intro conjI)
qed

section \<open>A target file that is gone\<close>

lemma visit_vanished:
  "visit (d, ds, (''Data.db'', File (Inl (FileNotFoundError m))) # fs) st = Inr st"
  by (simp add: visit_def getmtime_def)

text \<open>
  C7.  The read of a modification time that raises \<^verbatim>\<open>FileNotFoundError\<close> leaves the
  running minimum as it was.  On a plain tree where every failed read is of this kind the
  scan ends normally; it records nothing when no target file is left, and otherwise a
  target file that is left whose time is at most that of every other one left.
\<close>

theorem vanished_target_is_skipped:
  assumes "plain_base base" and "list_all tolerable (candidates base)"
  shows "visit (d, ds, (''Data.db'', File (Inl (FileNotFoundError m))) # fs) st0 = Inr st0
         \<and> (\<exists>st. scan base = Inr st
               \<and> (target_files base = [] \<longrightarrow> st = init_state)
               \<and> (target_files base \<noteq> [] \<longrightarrow>
                    (\<exists>p t. st = \<lparr>oldest_file_path = Some p, oldest_file_time = Some t\<rparr>
                           \<and> (p, t) \<in> set (target_files base)
                           \<and> (\<forall>c\<in>set (target_files base). t \<le> snd c))))"
proof -
  have s: "scan base = Inr (keep_oldest (target_files base) init_state)"
    by (rule scan_tolerable [OF assms])
  have e: "target_files base = [] \<longrightarrow> keep_oldest (target_files base) init_state = init_state"
    by simp
  have n: "target_files base \<noteq> [] \<longrightarrow>
             (\<exists>p t. keep_oldest (target_files base) init_state
                      = \<lparr>oldest_file_path = Some p, oldest_file_time = Some t\<rparr>
                    \<and> (p, t) \<in> set (target_files base)
                    \<and> (\<forall>c\<in>set (target_files base). t \<le> snd c))"
    using keep_oldest_minimum by blast
  from s e n visit_vanished show ?thesis by blast
qed

theorem vanished_target_is_skipped_witness:
  "plain_base ex_vanished \<and> list_all tolerable (candidates ex_vanished)
   \<and> \<not> list_all readable (candidates ex_vanished)
   \<and> scan ex_vanished = Inr \<lparr>oldest_file_path = Some ''/mnt/cassandra/ks1/events-3c4d/Data.db'',
                              oldest_file_time = Some 30\<rparr>"
proof -
  have t: "list_all tolerable (candidates ex_vanished)"
    by (simp add: candidates_ex_vanished tolerable_def is_file_not_found_def)
  have r: "\<not> list_all readable (candidates ex_vanished)"
    by (simp add: candidates_ex_vanished readable_def)
  have tf: "target_files ex_vanished =
              [(''/mnt/cassandra/ks1/users-1a2b/Data.db'', 50),
               (''/mnt/cassandra/ks1/events-3c4d/Data.db'', 30)]"
    by (simp add: target_files_def candidates_ex_vanished)
  have ne: "target_files ex_vanished \<noteq> []" by (simp add: tf)
  from vanished_target_is_skipped [OF plain_base_ex_vanished t, THEN conjunct2]
  obtain st where c: "scan ex_vanished = Inr st
      \<and> (target_files ex_vanished = [] \<longrightarrow> st = init_state)
      \<and> (target_files ex_vanished \<noteq> [] \<longrightarrow>
            (\<exists>p t. st = \<lparr>oldest_file_path = Some p, oldest_file_time = Some t\<rparr>
                   \<and> (p, t) \<in> set (target_files ex_vanished)
                   \<and> (\<forall>c\<in>set (target_files ex_vanished). t \<le> snd c)))" ..
  from c have s: "scan ex_vanished = Inr st" by (rule conjunct1)
  from c have "target_files ex_vanished \<noteq> [] \<longrightarrow>
            (\<exists>p t. st = \<lparr>oldest_file_path = Some p, oldest_file_time = Some t\<rparr>
                   \<and> (p, t) \<in> set (target_files ex_vanished)
                   \<and> (\<forall>c\<in>set (target_files ex_vanished). t \<le> snd c))"
    by (rule conjunct2 [THEN conjunct2])
  from this ne have "\<exists>p t. st = \<lparr>oldest_file_path = Some p, oldest_file_time = Some t\<rparr>
                   \<and> (p, t) \<in> set (target_files ex_vanished)
                   \<and> (\<forall>c\<in>set (target_files ex_vanished). t \<le> snd c)"
    by (rule mp)
  then obtain p t where st: "st = \<lparr>oldest_file_path = Some p, oldest_file_time = Some t\<rparr>"
    and i: "(p, t) \<in> set (target_files ex_vanished)"
    and l: "\<forall>c\<in>set (target_files ex_vanished). t \<le> snd c"
    by blast
  from i l have "p = ''/mnt/cassandra/ks1/events-3c4d/Data.db'' \<and> t = 30"
    by (auto simp: tf)
  with s st plain_base_ex_vanished t r show ?thesis by simp
qed

section \<open>The oldest target file\<close>

lemma scan_readable:
  assumes "plain_base base" and "list_all readable (candidates base)"
  shows "scan base = Inr (keep_oldest (target_files base) init_state)"
  by (rule scan_tolerable [OF assms(1) readable_tolerable [OF assms(2)]])

text \<open>
  C1.  On a plain tree whose target files all have a readable modification time, these
  times pairwise distinct, and with at least one target file, the scan ends with the path
  and the time of a target file whose time is the least of all and strictly below that of
  every other target file, and the script prints that path and that time.  The printing
  comes after the \<^verbatim>\<open>try\<close> block: when the time cannot be rendered the exception escapes
  and the scan line is all the script has printed.
\<close>

theorem oldest_target_is_reported:
  assumes "plain_base base" and "list_all readable (candidates base)"
    and "distinct (map snd (target_files base))" and "target_files base \<noteq> []"
  shows "\<exists>p t. scan base = Inr \<lparr>oldest_file_path = Some p, oldest_file_time = Some t\<rparr>
           \<and> (p, t) \<in> set (target_files base)
           \<and> t = Min (snd ` set (target_files base))
           \<and> (\<forall>c\<in>set (target_files base). c \<noteq> (p, t) \<longrightarrow> t < snd c)
           \<and> find_oldest_sstable_globally strftime (Some base)
               = (case strftime t of
                    None \<Rightarrow> Raises [msg_scanning]
                  | Some readable_time \<Rightarrow>
                      Returns [msg_scanning, ''--- Oldest SSTable Found Across All Keyspaces ---'',
                               ''Path: '' @ p, ''Modification Time: '' @ readable_time])"
proof -
  from keep_oldest_minimum [OF assms(4)] obtain p t
    where k: "keep_oldest (target_files base) init_state
                = \<lparr>oldest_file_path = Some p, oldest_file_time = Some t\<rparr>"
      and i: "(p, t) \<in> set (target_files base)"
      and le: "\<forall>c\<in>set (target_files base). t \<le> snd c"
    by blast
  have s: "scan base = Inr \<lparr>oldest_file_path = Some p, oldest_file_time = Some t\<rparr>"
    using scan_readable [OF assms(1,2)] k by simp
  have m: "t = Min (snd ` set (target_files base))"
  proof (rule sym, rule Min_eqI)
    show "finite (snd ` set (target_files base))" by simp
    show "\<And>y. y \<in> snd ` set (target_files base) \<Longrightarrow> t \<le> y" using le by auto
    show "t \<in> snd ` set (target_files base)" using i by force
  qed
  have u: "\<forall>c\<in>set (target_files base). c \<noteq> (p, t) \<longrightarrow> t < snd c"
  proof (intro ballI impI)
    fix c assume c: "c \<in> set (target_files base)" and ne: "c \<noteq> (p, t)"
    from assms(3) have "inj_on snd (set (target_files base))" by (simp add: distinct_map)
    have "snd c \<noteq> t"
    proof
      assume "snd c = t"
      then have "snd c = snd (p, t)" by simp
      with \<open>inj_on snd (set (target_files base))\<close> have "c = (p, t)"
        using c i by (rule inj_onD)
      with ne show False by simp
    qed
    moreover from le c have "t \<le> snd c" by simp
    ultimately show "t < snd c" by simp
  qed
  from s i m u report_found [OF plain_base_isdir [OF assms(1)] s] show ?thesis by blast
qed

lemma plain_base_ex_tree: "plain_base ex_tree"
  by (simp add: ex_tree_def plain_base_def system_keyspaces_def)

lemma candidates_ex_tree:
  "candidates ex_tree =
     [(''/mnt/cassandra/ks1/users-1a2b/Data.db'', Inr 50),
      (ex_path, Inr 20),
      (''/mnt/cassandra/ks1/events-3c4d/Data.db'', Inr 30)]"
  by (simp add: ex_tree_def ex_path_def candidates_def keyspace_candidates_def own_candidate_def
                system_keyspaces_def join_def base_cassandra_path_def)

theorem oldest_target_is_reported_witness:
  "plain_base ex_tree \<and> list_all readable (candidates ex_tree)
   \<and> distinct (map snd (target_files ex_tree)) \<and> target_files ex_tree \<noteq> []
   \<and> (\<exists>p t. scan ex_tree = Inr \<lparr>oldest_file_path = Some p, oldest_file_time = Some t\<rparr>
           \<and> (p, t) \<in> set (target_files ex_tree)
           \<and> t = Min (snd ` set (target_files ex_tree))
           \<and> (\<forall>c\<in>set (target_files ex_tree). c \<noteq> (p, t) \<longrightarrow> t < snd c)
           \<and> find_oldest_sstable_globally ex_strftime (Some ex_tree)
               = (case ex_strftime t of
                    None \<Rightarrow> Raises [msg_scanning]
                  | Some readable_time \<Rightarrow>
                      Returns [msg_scanning, ''--- Oldest SSTable Found Across All Keyspaces ---'',
                               ''Path: '' @ p, ''Modification Time: '' @ readable_time]))"
proof -
  have r: "list_all readable (candidates ex_tree)"
    by (simp add: candidates_ex_tree readable_def)
  have tf: "target_files ex_tree =
              [(''/mnt/cassandra/ks1/users-1a2b/Data.db'', 50), (ex_path, 20),
               (''/mnt/cassandra/ks1/events-3c4d/Data.db'', 30)]"
    by (simp add: target_files_def candidates_ex_tree)
  have d: "distinct (map snd (target_files ex_tree))" by (simp add: tf)
  have n: "target_files ex_tree \<noteq> []" by (simp add: tf)
  note c = oldest_target_is_reported [OF plain_base_ex_tree r d n, of ex_strftime]
  show ?thesis
    by (intro conjI) (rule plain_base_ex_tree r d n c)+
qed

section \<open>Equal modification times\<close>

lemma visit_single:
  "visit (d, ds, [(''Data.db'', File (Inr m))]) st =
     Inr (if (case oldest_file_time st of None \<Rightarrow> True | Some x \<Rightarrow> m < x)
          then st\<lparr>oldest_file_time := Some m, oldest_file_path := Some (join d ''Data.db'')\<rparr>
          else st)"
  by (simp add: visit_def getmtime_def time_lt_def)

text \<open>
  C5.  A directory's \<^verbatim>\<open>Data.db\<close> replaces the running minimum exactly when nothing was
  recorded yet or its time is strictly below the recorded one.  Hence, on a plain tree
  whose target files all have a readable modification time, the scan ends with the first
  target file in traversal order among those of least time: every target file met before
  it has a strictly greater time, every one met after it a time at least as great.
\<close>

theorem first_of_equal_times_is_reported:
  assumes "plain_base base" and "list_all readable (candidates base)"
    and "target_files base = pre @ (p, t) # post"
    and "\<forall>c\<in>set pre. t < snd c" and "\<forall>c\<in>set post. t \<le> snd c"
  shows "scan base = Inr \<lparr>oldest_file_path = Some p, oldest_file_time = Some t\<rparr>
         \<and> visit (d, ds, [(''Data.db'', File (Inr m))]) st =
             Inr (if (case oldest_file_time st of None \<Rightarrow> True | Some x \<Rightarrow> m < x)
                  then st\<lparr>oldest_file_time := Some m,
                          oldest_file_path := Some (join d ''Data.db'')\<rparr>
                  else st)"
proof -
  have "scan base = Inr (keep_oldest (pre @ (p, t) # post) init_state)"
    using scan_readable [OF assms(1,2)] assms(3) by simp
  then have "scan base = Inr \<lparr>oldest_file_path = Some p, oldest_file_time = Some t\<rparr>"
    by (simp add: keep_oldest_first_minimum [OF assms(4,5)])
  then show ?thesis using visit_single by (rule conjI)
qed

lemma plain_base_ex_tie: "plain_base ex_tie"
  by (simp add: ex_tie_def plain_base_def system_keyspaces_def)

lemma candidates_ex_tie:
  "candidates ex_tie =
     [(''/mnt/cassandra/ks1/users-1a2b/Data.db'', Inr 40),
      (''/mnt/cassandra/ks1/events-3c4d/Data.db'', Inr 30),
      (''/mnt/cassandra/ks1/orders-5e6f/Data.db'', Inr 30)]"
  by (simp add: ex_tie_def candidates_def keyspace_candidates_def own_candidate_def
                system_keyspaces_def join_def base_cassandra_path_def)

theorem first_of_equal_times_is_reported_witness:
  "plain_base ex_tie \<and> list_all readable (candidates ex_tie)
   \<and> target_files ex_tie = [(''/mnt/cassandra/ks1/users-1a2b/Data.db'', 40)]
        @ (''/mnt/cassandra/ks1/events-3c4d/Data.db'', 30)
        # [(''/mnt/cassandra/ks1/orders-5e6f/Data.db'', 30)]
   \<and> scan ex_tie = Inr \<lparr>oldest_file_path = Some ''/mnt/cassandra/ks1/events-3c4d/Data.db'',
                          oldest_file_time = Some 30\<rparr>"
proof -
  have r: "list_all readable (candidates ex_tie)"
    by (simp add: candidates_ex_tie readable_def)
  have tf: "target_files ex_tie = [(''/mnt/cassandra/ks1/users-1a2b/Data.db'', 40)]
        @ (''/mnt/cassandra/ks1/events-3c4d/Data.db'', 30)
        # [(''/mnt/cassandra/ks1/orders-5e6f/Data.db'', 30)]"
    by (simp add: target_files_def candidates_ex_tie)
  have a: "\<forall>c\<in>set [(''/mnt/cassandra/ks1/users-1a2b/Data.db'', 40::real)]. 30 < snd c"
    by simp
  have b: "\<forall>c\<in>set [(''/mnt/cassandra/ks1/orders-5e6f/Data.db'', 30::real)]. 30 \<le> snd c"
    by simp
  have "scan ex_tie = Inr \<lparr>oldest_file_path = Some ''/mnt/cassandra/ks1/events-3c4d/Data.db'',
                          oldest_file_time = Some 30\<rparr>"
    by (rule first_of_equal_times_is_reported [OF plain_base_ex_tie r tf a b, THEN conjunct1])
  with plain_base_ex_tie r tf show ?thesis by blast
qed

section \<open>Symbolic links\<close>

lemma islink_cut_links: "islink (cut_links n) = islink n"
  by (cases n) simp_all

lemma isdir_cut_links: "isdir (cut_links n) = isdir n"
  by (induction n) (simp_all add: isdir_def)

lemma cut_links_nondir: "\<not> isdir n \<Longrightarrow> \<not> islink n \<Longrightarrow> cut_links n = n"
  by (cases n) (simp_all add: isdir_def)

lemma isdir_cut_entry:
  "isdir (if islink n then (if isdir n then Link (Dir []) else n) else cut_links n) = isdir n"
  by (simp add: isdir_cut_links) (simp add: isdir_def)

lemma dirnames_cut_links: "dirnames (cut_links_entries es) = dirnames es"
proof (induction es)
  case Nil
  then show ?case by simp
next
  case (Cons e es)
  have "dirnames (cut_links_entries (e # es)) =
          (if isdir (snd e) then [fst e] else []) @ dirnames (cut_links_entries es)"
    using isdir_cut_entry [of "snd e"] by (simp add: dirnames_def)
  also have "\<dots> = dirnames (e # es)" by (simp add: Cons.IH) (simp add: dirnames_def)
  finally show ?case .
qed

lemma nondirs_cut_links: "nondirs (cut_links_entries es) = nondirs es"
proof (induction es)
  case Nil
  then show ?case by simp
next
  case (Cons e es)
  show ?case
  proof (cases "isdir (snd e)")
    case True
    have "nondirs (cut_links_entries (e # es)) = nondirs (cut_links_entries es)"
      using isdir_cut_entry [of "snd e"] True by (simp add: nondirs_def)
    also have "\<dots> = nondirs (e # es)" using True by (simp add: Cons.IH) (simp add: nondirs_def)
    finally show ?thesis .
  next
    case False
    then have same: "(if islink (snd e) then (if isdir (snd e) then Link (Dir []) else snd e)
                      else cut_links (snd e)) = snd e"
      by (simp add: cut_links_nondir)
    have "nondirs (cut_links_entries (e # es)) = e # nondirs (cut_links_entries es)"
      using False by (simp add: same) (simp add: nondirs_def)
    also have "\<dots> = nondirs (e # es)" using False by (simp add: Cons.IH) (simp add: nondirs_def)
    finally show ?thesis .
  qed
qed

lemma os_walk_cut_links:
  "os_walk d (cut_links n) = os_walk d n"
  "walk_dirs d (cut_links_entries es) = walk_dirs d es"
proof (induction d n and d es rule: os_walk_walk_dirs.induct)
  case (1 dirpath es)
  then show ?case by (simp add: dirnames_cut_links nondirs_cut_links)
next
  case (7 dirpath e es)
  show ?case
  proof (cases "islink (snd e)")
    case True
    then show ?thesis using "7.IH"(2) by simp
  next
    case False
    then show ?thesis
      using "7.IH" by (simp add: isdir_cut_links islink_cut_links)
  qed
qed simp_all

lemma scan_ex_links:
  "scan ex_links = Inr \<lparr>oldest_file_path = Some ''/mnt/cassandra/ks1/users-1a2b/Data.db'',
                         oldest_file_time = Some 50\<rparr>"
  by (simp add: ex_links_def eval_defs)

text \<open>
  C10.  The directory test and the listing of the first two levels see through a symbolic
  link, so a namespace or a table that is a link is scanned like its target.  Inside a
  table the walk lists a link to a directory but never descends into it: the items of the
  walk, and with them the scan, are the same when every directory behind such a link is
  empty.  On \<open>ex_links\<close> the \<^verbatim>\<open>Data.db\<close> behind the link \<^verbatim>\<open>old\<close> is the oldest of all and
  is not recorded.
\<close>

theorem links_followed_at_two_levels_only:
  "isdir (Link n) = isdir n
   \<and> scan_keyspaces ((k, Link n) # ks) st = scan_keyspaces ((k, n) # ks) st
   \<and> scan_tables kp ((t, Link n) # ts) st = scan_tables kp ((t, n) # ts) st
   \<and> walk_dirs d ((name, Link n) # es) = walk_dirs d es
   \<and> os_walk d (cut_links n) = os_walk d n
   \<and> scan_tables kp ((t, cut_links n) # ts) st = scan_tables kp ((t, n) # ts) st
   \<and> scan ex_links = Inr \<lparr>oldest_file_path = Some ''/mnt/cassandra/ks1/users-1a2b/Data.db'',
                            oldest_file_time = Some 50\<rparr>"
proof -
  have a: "scan_keyspaces ((k, Link n) # ks) st = scan_keyspaces ((k, n) # ks) st" by simp
  have b: "scan_tables kp ((t, Link n) # ts) st = scan_tables kp ((t, n) # ts) st" by simp
  have c: "walk_dirs d ((name, Link n) # es) = walk_dirs d es" by simp
  have e: "scan_tables kp ((t, cut_links n) # ts) st = scan_tables kp ((t, n) # ts) st"
    by (simp add: isdir_cut_links os_walk_cut_links(1))
  from a b c e os_walk_cut_links(1) scan_ex_links show ?thesis by simp
qed

end
